theory Spec2Isabelle
  imports Main "HOL-Library.AList"
begin

section \<open>Process-log buffers\<close>

text \<open>
  \<^verbatim>\<open>Array.prototype.slice(-n)\<close> for a positive \<open>n\<close>: the start index is
  \<open>max (length + (-n)) 0\<close> and the copy runs to the end of the array. Subtraction on
  \<open>nat\<close> stops at zero, which is that \<open>max\<close>.
\<close>

definition slice_neg :: "nat \<Rightarrow> 'a list \<Rightarrow> 'a list" where
  "slice_neg n xs = drop (length xs - n) xs"

text \<open>
  The updater passed to \<^verbatim>\<open>setProcessLogs\<close> in \<^verbatim>\<open>pages/DataGenerator.tsx\<close>:
  \<^verbatim>\<open>prev => { const newLogs = [...prev, logEntry]; return newLogs.slice(-50); }\<close>
\<close>

definition setProcessLogs_DataGenerator :: "'a list \<Rightarrow> 'a \<Rightarrow> 'a list" where
  "setProcessLogs_DataGenerator prev logEntry =
     (let newLogs = prev @ [logEntry] in slice_neg 50 newLogs)"

text \<open>
  The updater of the compact monitor (\<^verbatim>\<open>RealTimeStatus\<close>):
  \<^verbatim>\<open>prev => { const newLogs = [...prev, data].slice(-20); return newLogs; }\<close>
\<close>

definition setProcessLogs_RealTimeStatus :: "'a list \<Rightarrow> 'a \<Rightarrow> 'a list" where
  "setProcessLogs_RealTimeStatus prev data =
     (let newLogs = slice_neg 20 (prev @ [data]) in newLogs)"

section \<open>The reconnecting event channel (\<^verbatim>\<open>useWebSocket\<close>)\<close>

text \<open>
  The hook's state: the React state variables \<^verbatim>\<open>isConnected\<close> and \<^verbatim>\<open>error\<close>, the ref
  \<^verbatim>\<open>reconnectAttempts\<close>, and the calls of \<^verbatim>\<open>setTimeout\<close> made so far: \<open>scheduled\<close> lists
  the delay (in milliseconds) of every reconnect timer, in the order the timers were set.
\<close>

record ws_state =
  isConnected :: bool
  error :: "string option"
  reconnectAttempts :: nat
  scheduled :: "nat list"

definition ws_init :: ws_state where
  "ws_init = \<lparr>isConnected = False, error = None, reconnectAttempts = 0, scheduled = []\<rparr>"

definition maxReconnectAttempts :: nat where
  "maxReconnectAttempts = 3"

definition onopen :: "ws_state \<Rightarrow> ws_state" where
  "onopen s = s\<lparr>isConnected := True, error := None, reconnectAttempts := 0\<rparr>"

text \<open>
  \<^verbatim>\<open>onclose\<close>: the counter is incremented first, the delay is computed from the
  incremented counter, and the timer is set; when the counter has reached the maximum,
  the error is set and no timer is.
\<close>

definition onclose :: "ws_state \<Rightarrow> ws_state" where
  "onclose s =
     (let s1 = s\<lparr>isConnected := False\<rparr> in
      if reconnectAttempts s1 < maxReconnectAttempts then
        (let n = reconnectAttempts s1 + 1;
             delay = min (1000 * 2 ^ n) 10000
         in s1\<lparr>reconnectAttempts := n, scheduled := scheduled s1 @ [delay]\<rparr>)
      else
        s1\<lparr>error := Some ''Failed to establish WebSocket connection after multiple attempts''\<rparr>)"

definition onerror :: "ws_state \<Rightarrow> ws_state" where
  "onerror s = s\<lparr>error := Some ''WebSocket connection error - backend may not be available''\<rparr>"

text \<open>
  The transport's events. A reconnect timer that fires calls \<^verbatim>\<open>connect\<close>, which creates a
  new socket and changes none of the fields above; the new socket then reports
  \<open>OnOpen\<close>, or \<open>OnError\<close> and \<open>OnClose\<close>.
\<close>

datatype ws_event = OnOpen | OnClose | OnError

fun ws_step :: "ws_state \<Rightarrow> ws_event \<Rightarrow> ws_state" where
  "ws_step s OnOpen = onopen s"
| "ws_step s OnClose = onclose s"
| "ws_step s OnError = onerror s"

text \<open>The channel after the events \<open>evs\<close>, from the state \<open>s\<close> and from the fresh channel.\<close>

definition ws_run_from :: "ws_state \<Rightarrow> ws_event list \<Rightarrow> ws_state" where
  "ws_run_from s evs = foldl ws_step s evs"

definition ws_run :: "ws_event list \<Rightarrow> ws_state" where
  "ws_run evs = foldl ws_step ws_init evs"

section \<open>JavaScript values\<close>

text \<open>
  The responses of the backend are typed \<^verbatim>\<open>any\<close>: whatever JSON the server sent. A
  property list stands for an object, in the enumeration order of its properties, each
  name once. Numbers are the integers (the numbers read here are counts of agents).
\<close>

datatype jsval =
    JUndefined
  | JNull
  | JBool bool
  | JNum int
  | JStr string
  | JArr "jsval list"
  | JObj "(string \<times> jsval) list"

text \<open>\<^verbatim>\<open>ToBoolean\<close>: the falsy values are undefined, null, false, 0 and the empty string.\<close>

fun truthy :: "jsval \<Rightarrow> bool" where
  "truthy JUndefined = False"
| "truthy JNull = False"
| "truthy (JBool b) = b"
| "truthy (JNum n) = (n \<noteq> 0)"
| "truthy (JStr s) = (s \<noteq> [])"
| "truthy (JArr xs) = True"
| "truthy (JObj kvs) = True"

text \<open>\<^verbatim>\<open>a || b\<close>\<close>

definition js_or :: "jsval \<Rightarrow> jsval \<Rightarrow> jsval" where
  "js_or a b = (if truthy a then a else b)"

definition nullish :: "jsval \<Rightarrow> bool" where
  "nullish v = (v = JUndefined \<or> v = JNull)"

text \<open>
  Reading the property \<open>k\<close> of a value that is neither undefined nor null. The names read
  by the program (\<^verbatim>\<open>services\<close>, \<^verbatim>\<open>gemini\<close>, \<^verbatim>\<open>status\<close>, \<^verbatim>\<open>model\<close>, \<^verbatim>\<open>agents\<close>, ...) are not
  properties of strings, numbers, booleans or arrays, so only an object can have them.
\<close>

fun js_get :: "jsval \<Rightarrow> string \<Rightarrow> jsval" where
  "js_get (JObj kvs) k = (case map_of kvs k of Some v \<Rightarrow> v | None \<Rightarrow> JUndefined)"
| "js_get v k = JUndefined"

text \<open>\<^verbatim>\<open>a?.k\<close>\<close>

definition opt_chain :: "jsval \<Rightarrow> string \<Rightarrow> jsval" where
  "opt_chain a k = (if nullish a then JUndefined else js_get a k)"

text \<open>What a \<^verbatim>\<open>throw\<close> carries: an \<^verbatim>\<open>Error\<close> with its message, or any other value.\<close>

datatype thrown = ErrorObj string | ThrownValue jsval

text \<open>\<^verbatim>\<open>a.k\<close>: a \<^verbatim>\<open>TypeError\<close> when \<open>a\<close> is undefined or null.\<close>

definition member :: "jsval \<Rightarrow> string \<Rightarrow> thrown + jsval" where
  "member a k =
     (if nullish a then Inl (ErrorObj ''Cannot read properties of undefined or null'')
      else Inr (js_get a k))"

text \<open>
  \<^verbatim>\<open>Object.values\<close> of a value that is neither undefined nor null: the property values of
  an object, the elements of an array, the one-character strings of a string, nothing
  for a number or a boolean.
\<close>

fun Object_values :: "jsval \<Rightarrow> jsval list" where
  "Object_values (JObj kvs) = map snd kvs"
| "Object_values (JArr xs) = xs"
| "Object_values (JStr s) = map (\<lambda>c. JStr [c]) s"
| "Object_values v = []"

text \<open>The settled state of an awaited promise.\<close>

datatype 'a outcome = Resolved 'a | Rejected thrown

section \<open>The status aggregator (\<^verbatim>\<open>useSystemStatus\<close>)\<close>

datatype gemini_state = Online | Offline | Unknown

datatype verdict = Healthy | Degraded | Unhealthy

record backend =
  healthy :: bool
  lastCheck :: "int option"
  responseTime :: int
  error :: "string option"

record gemini =
  status :: gemini_state
  model :: jsval
  quotaPreserved :: jsval
  apiKeyConfigured :: jsval

record agents =
  active :: bool
  total :: jsval
  operational :: nat
  details :: "jsval option"

record websockets =
  connected :: bool
  status :: jsval

record overall =
  status :: verdict
  message :: string

record SystemStatusData =
  backend :: backend
  gemini :: gemini
  agents :: agents
  websockets :: websockets
  overall :: overall

text \<open>What \<^verbatim>\<open>ApiService.healthCheck\<close> resolves with; \<open>data\<close> is \<open>JUndefined\<close> when absent.\<close>

record healthResponse =
  healthy :: bool
  data :: jsval

text \<open>The initial value of the \<^verbatim>\<open>status\<close> state.\<close>

definition initial_status :: SystemStatusData where
  "initial_status =
     \<lparr>backend = \<lparr>backend.healthy = False, lastCheck = None, responseTime = 0, error = None\<rparr>,
      gemini = \<lparr>gemini.status = Unknown, model = JStr ''gemini-2.0-flash-exp'',
                quotaPreserved = JBool False, apiKeyConfigured = JBool False\<rparr>,
      agents = \<lparr>active = False, total = JNum 5, operational = 0, details = None\<rparr>,
      websockets = \<lparr>connected = False, status = JStr ''disconnected''\<rparr>,
      overall = \<lparr>overall.status = Unhealthy, message = ''Checking system status...''\<rparr>\<rparr>"

text \<open>\<^verbatim>\<open>healthResponse.data?.services\<close> and \<^verbatim>\<open>healthResponse.data?.services?.gemini\<close>\<close>

definition services :: "healthResponse \<Rightarrow> jsval" where
  "services hr = opt_chain (data hr) ''services''"

definition services_gemini :: "healthResponse \<Rightarrow> jsval" where
  "services_gemini hr = opt_chain (services hr) ''gemini''"

text \<open>
  \<^verbatim>\<open>newStatus\<close> as first built from the health response (lines 55 to 78); \<open>elapsed\<close> is
  the source's \<^verbatim>\<open>responseTime\<close>. Both branches of
  the conditional for \<^verbatim>\<open>gemini.status\<close> are \<^verbatim>\<open>'online'\<close> in the source.
\<close>

definition newStatus_primary :: "healthResponse \<Rightarrow> int \<Rightarrow> int \<Rightarrow> SystemStatusData" where
  "newStatus_primary hr now elapsed =
     \<lparr>backend =
        \<lparr>backend.healthy = healthResponse.healthy hr,
         lastCheck = Some now,
         responseTime = elapsed,
         error = (if healthResponse.healthy hr then None else Some ''Connection failed'')\<rparr>,
      gemini =
        \<lparr>gemini.status = (if opt_chain (services_gemini hr) ''status'' = JStr ''ready''
                   then Online else Online),
         model = js_or (opt_chain (services_gemini hr) ''model'') (JStr ''gemini-2.0-flash-exp''),
         quotaPreserved = js_or (opt_chain (services_gemini hr) ''quota_preserved'') (JBool False),
         apiKeyConfigured =
           js_or (opt_chain (services_gemini hr) ''api_key_configured'') (JBool False)\<rparr>,
      agents =
        \<lparr>active = (opt_chain (services hr) ''agents'' = JStr ''active''),
         total = JNum 5,
         operational = (if opt_chain (services hr) ''agents'' = JStr ''active'' then 5 else 0),
         details = None\<rparr>,
      websockets =
        \<lparr>connected = (opt_chain (services hr) ''websockets'' = JStr ''ready''),
         status = js_or (opt_chain (services hr) ''websockets'') (JStr ''unknown'')\<rparr>,
      overall = \<lparr>overall.status = Healthy, message = ''All systems operational''\<rparr>\<rparr>"

text \<open>
  The callback of the filter, \<^verbatim>\<open>(agent: any) => agent.status === 'active'\<close>, over
  \<^verbatim>\<open>Object.values(agentStatus.agents)\<close>, counting the agents it keeps; the first agent that
  is undefined or null throws.
\<close>

fun count_active :: "jsval list \<Rightarrow> thrown + nat" where
  "count_active [] = Inr 0"
| "count_active (agent # rest) =
     (case member agent ''status'' of
        Inl e \<Rightarrow> Inl e
      | Inr st \<Rightarrow>
          (case count_active rest of
             Inl e \<Rightarrow> Inl e
           | Inr n \<Rightarrow> Inr (if st = JStr ''active'' then Suc n else n)))"

text \<open>
  The body of the inner \<^verbatim>\<open>try\<close> after the await (lines 84 to 95): \<open>Inr None\<close> when the
  condition of the \<^verbatim>\<open>if\<close> is false and \<^verbatim>\<open>newStatus.agents\<close> is left alone.
\<close>

definition agents_secondary :: "jsval \<Rightarrow> thrown + agents option" where
  "agents_secondary agentStatus =
     (if truthy agentStatus \<and> truthy (js_get agentStatus ''agents'') then
        (case count_active (Object_values (js_get agentStatus ''agents'')) of
           Inl e \<Rightarrow> Inl e
         | Inr operationalAgents \<Rightarrow>
             Inr (Some
               \<lparr>active = (js_get agentStatus ''orchestrator_status'' = JStr ''active''),
                total = js_or (js_get agentStatus ''total_agents'') (JNum 5),
                operational = operationalAgents,
                details = Some (js_get agentStatus ''agents'')\<rparr>))
      else Inr None)"

text \<open>
  Lines 80 to 99: the secondary probe is awaited only when the backend is healthy;
  whatever it or the code after it throws is caught and logged. The second component
  tells whether \<^verbatim>\<open>ApiService.getAgentsStatus\<close> was called.
\<close>

definition with_agent_status ::
  "healthResponse \<Rightarrow> jsval outcome \<Rightarrow> SystemStatusData \<Rightarrow> SystemStatusData \<times> bool" where
  "with_agent_status hr agentOutcome newStatus =
     (if healthResponse.healthy hr then
        (case agentOutcome of
           Rejected e \<Rightarrow> (newStatus, True)
         | Resolved agentStatus \<Rightarrow>
             (case agents_secondary agentStatus of
                Inl e \<Rightarrow> (newStatus, True)
              | Inr None \<Rightarrow> (newStatus, True)
              | Inr (Some a) \<Rightarrow> (newStatus\<lparr>agents := a\<rparr>, True)))
      else (newStatus, False))"

text \<open>Lines 101 to 119: the overall status.\<close>

definition determine_overall :: "SystemStatusData \<Rightarrow> SystemStatusData" where
  "determine_overall newStatus =
     (if backend.healthy (backend newStatus) \<and> gemini.status (gemini newStatus) = Online
         \<and> active (agents newStatus) then
        newStatus\<lparr>overall :=
          \<lparr>overall.status = Healthy,
           message = ''All systems operational - Full AI generation available''\<rparr>\<rparr>
      else if backend.healthy (backend newStatus) then
        newStatus\<lparr>overall :=
          \<lparr>overall.status = Degraded,
           message = (if gemini.status (gemini newStatus) = Offline
                      then ''Backend healthy, Gemini offline - Local generation available''
                      else ''Partial functionality available'')\<rparr>\<rparr>
      else
        newStatus\<lparr>overall :=
          \<lparr>overall.status = Unhealthy,
           message = ''AI system unavailable - Please check connection''\<rparr>\<rparr>)"

text \<open>The status built in the \<^verbatim>\<open>catch\<close> block (lines 123 to 139).\<close>

definition errorStatus :: "thrown \<Rightarrow> int \<Rightarrow> SystemStatusData" where
  "errorStatus e now =
     \<lparr>backend =
        \<lparr>backend.healthy = False, lastCheck = Some now, responseTime = 0,
         error = Some (case e of ErrorObj msg \<Rightarrow> msg | ThrownValue v \<Rightarrow> ''Unknown error'')\<rparr>,
      gemini = \<lparr>gemini.status = Offline, model = JStr ''gemini-2.0-flash-exp'',
                quotaPreserved = JBool False, apiKeyConfigured = JBool False\<rparr>,
      agents = \<lparr>active = False, total = JNum 5, operational = 0, details = None\<rparr>,
      websockets = \<lparr>connected = False, status = JStr ''error''\<rparr>,
      overall = \<lparr>overall.status = Unhealthy, message = ''System health check failed''\<rparr>\<rparr>"

text \<open>
  One poll cycle from the answers of the two probes: the status it publishes with
  \<^verbatim>\<open>setStatus\<close>, and whether the secondary probe was called. \<open>startTime\<close> and \<open>now\<close> are the
  clock readings before and after the health check.
\<close>

definition poll_cycle ::
  "healthResponse outcome \<Rightarrow> jsval outcome \<Rightarrow> int \<Rightarrow> int \<Rightarrow> SystemStatusData \<times> bool" where
  "poll_cycle healthOutcome agentOutcome startTime now =
     (case healthOutcome of
        Rejected e \<Rightarrow> (errorStatus e now, False)
      | Resolved hr \<Rightarrow>
          (let elapsed = now - startTime;
               (newStatus, called) =
                  with_agent_status hr agentOutcome (newStatus_primary hr now elapsed)
           in (determine_overall newStatus, called)))"

definition published :: "healthResponse outcome \<Rightarrow> jsval outcome \<Rightarrow> int \<Rightarrow> int \<Rightarrow> SystemStatusData" where
  "published healthOutcome agentOutcome startTime now =
     fst (poll_cycle healthOutcome agentOutcome startTime now)"

definition secondary_called :: "healthResponse outcome \<Rightarrow> jsval outcome \<Rightarrow> int \<Rightarrow> int \<Rightarrow> bool" where
  "secondary_called healthOutcome agentOutcome startTime now =
     snd (poll_cycle healthOutcome agentOutcome startTime now)"

text \<open>
  The invariant of the data model, \<^verbatim>\<open>agents.operational <= agents.total\<close>, for a \<open>total\<close>
  that is a number as the interface declares it.
\<close>

definition agents_invariant :: "agents \<Rightarrow> bool" where
  "agents_invariant a = (case total a of JNum n \<Rightarrow> int (operational a) \<le> n | _ \<Rightarrow> False)"

text \<open>
  The hook's state. \<open>status\<close> and \<open>isChecking\<close> are the React state variables, with the
  values last given to \<^verbatim>\<open>setStatus\<close> and \<^verbatim>\<open>setIsChecking\<close>. Inside a render \<^verbatim>\<open>isChecking\<close>
  is a constant, and the callbacks \<^verbatim>\<open>checkSystemStatus\<close> and \<^verbatim>\<open>forceCheck\<close> that the render
  creates (\<^verbatim>\<open>useCallback\<close> with the dependency \<^verbatim>\<open>isChecking\<close>) capture it: \<open>rendered\<close> is
  that constant for the latest render, whose callbacks the effect, the interval timer and
  the hook's users hold. \<open>suspended\<close> lists the invocations of \<^verbatim>\<open>checkSystemStatus\<close> that
  wait at an \<^verbatim>\<open>await\<close>, each with its \<^verbatim>\<open>startTime\<close>, and \<open>healthCalls\<close> counts the calls of
  \<^verbatim>\<open>ApiService.healthCheck\<close> made so far.
\<close>

record hook_state =
  status :: SystemStatusData
  isChecking :: bool
  rendered :: bool
  suspended :: "int list"
  healthCalls :: nat

definition hook_init :: hook_state where
  "hook_init =
     \<lparr>status = initial_status, isChecking = False, rendered = False, suspended = [],
      healthCalls = 0\<rparr>"

text \<open>
  \<^verbatim>\<open>checkSystemStatus\<close> up to its first \<^verbatim>\<open>await\<close>: the guard, \<^verbatim>\<open>setIsChecking(true)\<close>, the
  clock reading and the call of the health check. The guard reads \<open>captured\<close>, the
  \<^verbatim>\<open>isChecking\<close> of the render that created this callback, not the value set since.
\<close>

definition checkSystemStatus :: "bool \<Rightarrow> hook_state \<Rightarrow> int \<Rightarrow> hook_state" where
  "checkSystemStatus captured s now =
     (if captured then s
      else s\<lparr>isChecking := True, suspended := suspended s @ [now],
             healthCalls := healthCalls s + 1\<rparr>)"

text \<open>\<^verbatim>\<open>forceCheck\<close> calls the \<^verbatim>\<open>checkSystemStatus\<close> of its own render.\<close>

definition forceCheck :: "bool \<Rightarrow> hook_state \<Rightarrow> int \<Rightarrow> hook_state" where
  "forceCheck captured s now = checkSystemStatus captured s now"

text \<open>
  The rest of a suspended invocation, once its probes have settled: \<^verbatim>\<open>setStatus\<close> with
  the status of the cycle, and \<^verbatim>\<open>setIsChecking(false)\<close> in the \<^verbatim>\<open>finally\<close> block.
\<close>

definition settle ::
  "hook_state \<Rightarrow> healthResponse outcome \<Rightarrow> jsval outcome \<Rightarrow> int \<Rightarrow> hook_state" where
  "settle s healthOutcome agentOutcome now =
     (case suspended s of
        [] \<Rightarrow> s
      | startTime # rest \<Rightarrow>
          s\<lparr>status := published healthOutcome agentOutcome startTime now,
            isChecking := False, suspended := rest\<rparr>)"

text \<open>
  What happens to the hook. \<open>Render\<close>: React renders again, and the new callbacks capture
  the current \<^verbatim>\<open>isChecking\<close>. \<open>Invoke\<close>: a call of the callback of the latest render, by the
  effect (on mount and when the callback has changed), by the interval timer or by
  \<^verbatim>\<open>forceCheck\<close>. \<open>Settle\<close>: the probes of the oldest suspended invocation have settled.
\<close>

datatype hook_event =
    Render
  | Invoke int
  | Settle "healthResponse outcome" "jsval outcome" int

fun hook_step :: "hook_state \<Rightarrow> hook_event \<Rightarrow> hook_state" where
  "hook_step s Render = s\<lparr>rendered := isChecking s\<rparr>"
| "hook_step s (Invoke now) = checkSystemStatus (rendered s) s now"
| "hook_step s (Settle healthOutcome agentOutcome now) = settle s healthOutcome agentOutcome now"

definition hook_run :: "hook_event list \<Rightarrow> hook_state" where
  "hook_run evs = foldl hook_step hook_init evs"

section \<open>JSON text of flat objects\<close>

text \<open>
  \<^verbatim>\<open>JSON.stringify\<close> and \<^verbatim>\<open>JSON.parse\<close> for the objects stored here: objects whose property
  values are strings, given as property lists. A \<^typ>\<open>char\<close> stands for a code unit of a
  JavaScript string.

  \<^verbatim>\<open>QuoteJSONString\<close>: the two-character escapes for backspace, tab, line feed, form feed,
  carriage return, the double quote and the backslash; \<^verbatim>\<open>\u00XX\<close> with lower-case digits
  for the other code units below 0x20; every other code unit as it is.
\<close>

type_synonym js_object = "(string \<times> string) list"

definition hex_digit :: "nat \<Rightarrow> char" where
  "hex_digit d = (if d < 10 then char_of (48 + d) else char_of (87 + d))"

definition escape_char :: "char \<Rightarrow> string" where
  "escape_char c =
     (if c = CHR 0x08 then [CHR 0x5C, CHR ''b'']
      else if c = CHR 0x09 then [CHR 0x5C, CHR ''t'']
      else if c = CHR 0x0A then [CHR 0x5C, CHR ''n'']
      else if c = CHR 0x0C then [CHR 0x5C, CHR ''f'']
      else if c = CHR 0x0D then [CHR 0x5C, CHR ''r'']
      else if c = CHR 0x22 then [CHR 0x5C, CHR 0x22]
      else if c = CHR 0x5C then [CHR 0x5C, CHR 0x5C]
      else if (of_char c :: nat) < 0x20 then
        [CHR 0x5C, CHR ''u'', CHR ''0'', CHR ''0'',
         hex_digit ((of_char c :: nat) div 16), hex_digit ((of_char c :: nat) mod 16)]
      else [c])"

definition QuoteJSONString :: "string \<Rightarrow> string" where
  "QuoteJSONString s = CHR 0x22 # concat (map escape_char s) @ [CHR 0x22]"

fun members_text :: "js_object \<Rightarrow> string" where
  "members_text [] = []"
| "members_text [(k, v)] = QuoteJSONString k @ '':'' @ QuoteJSONString v"
| "members_text ((k, v) # rest) =
     QuoteJSONString k @ '':'' @ QuoteJSONString v @ '','' @ members_text rest"

definition JSON_stringify :: "js_object \<Rightarrow> string" where
  "JSON_stringify props = ''{'' @ members_text props @ ''}''"

text \<open>
  \<^verbatim>\<open>JSON.parse\<close> on the texts of such objects: white space between the tokens, strings
  with every escape of the JSON grammar, a later member replacing an earlier one of the
  same name in its place. The result is \<open>None\<close> when the text is not the text of an
  object with string values only: either \<^verbatim>\<open>JSON.parse\<close> throws a \<^verbatim>\<open>SyntaxError\<close> there, or
  it returns a value of another shape, or a string with a code unit above 0xFF. The
  property list is in the order of the text; JavaScript lists array-index names first,
  which the names of a model configuration are not.
\<close>

definition is_json_ws :: "char \<Rightarrow> bool" where
  "is_json_ws c = (c = CHR 0x20 \<or> c = CHR 0x09 \<or> c = CHR 0x0A \<or> c = CHR 0x0D)"

definition skip_ws :: "string \<Rightarrow> string" where
  "skip_ws inp = dropWhile is_json_ws inp"

definition hex_val :: "char \<Rightarrow> nat option" where
  "hex_val c =
     (let n = (of_char c :: nat) in
      if 48 \<le> n \<and> n \<le> 57 then Some (n - 48)
      else if 97 \<le> n \<and> n \<le> 102 then Some (n - 87)
      else if 65 \<le> n \<and> n \<le> 70 then Some (n - 55)
      else None)"

definition unescape :: "char \<Rightarrow> char option" where
  "unescape e =
     (if e = CHR 0x22 then Some (CHR 0x22)
      else if e = CHR 0x5C then Some (CHR 0x5C)
      else if e = CHR ''/'' then Some (CHR ''/'')
      else if e = CHR ''b'' then Some (CHR 0x08)
      else if e = CHR ''f'' then Some (CHR 0x0C)
      else if e = CHR ''n'' then Some (CHR 0x0A)
      else if e = CHR ''r'' then Some (CHR 0x0D)
      else if e = CHR ''t'' then Some (CHR 0x09)
      else None)"

definition hex4 :: "char \<Rightarrow> char \<Rightarrow> char \<Rightarrow> char \<Rightarrow> nat option" where
  "hex4 h1 h2 h3 h4 =
     (case (hex_val h1, hex_val h2, hex_val h3, hex_val h4) of
        (Some a, Some b, Some c, Some d) \<Rightarrow> Some (((a * 16 + b) * 16 + c) * 16 + d)
      | _ \<Rightarrow> None)"

definition push_char :: "char \<Rightarrow> (string \<times> string) option \<Rightarrow> (string \<times> string) option" where
  "push_char c r = (case r of None \<Rightarrow> None | Some (s, rest) \<Rightarrow> Some (c # s, rest))"

fun parse_chars :: "string \<Rightarrow> (string \<times> string) option" where
  "parse_chars [] = None"
| "parse_chars (c # cs) =
     (if c = CHR 0x22 then Some ([], cs)
      else if c = CHR 0x5C then
        (case cs of
           [] \<Rightarrow> None
         | e # r \<Rightarrow>
             if e = CHR ''u'' then
               (case r of
                  h1 # h2 # h3 # h4 # r' \<Rightarrow>
                    (case hex4 h1 h2 h3 h4 of
                       None \<Rightarrow> None
                     | Some n \<Rightarrow> if n < 256 then push_char (char_of n) (parse_chars r') else None)
                | _ \<Rightarrow> None)
             else
               (case unescape e of
                  None \<Rightarrow> None
                | Some d \<Rightarrow> push_char d (parse_chars r)))
      else if (of_char c :: nat) < 0x20 then None
      else push_char c (parse_chars cs))"

definition parse_string :: "string \<Rightarrow> (string \<times> string) option" where
  "parse_string inp =
     (case inp of [] \<Rightarrow> None | c # cs \<Rightarrow> if c = CHR 0x22 then parse_chars cs else None)"

definition parse_member :: "string \<Rightarrow> ((string \<times> string) \<times> string) option" where
  "parse_member inp =
     (case parse_string (skip_ws inp) of
        None \<Rightarrow> None
      | Some (k, r1) \<Rightarrow>
          (case skip_ws r1 of
             [] \<Rightarrow> None
           | c # r2 \<Rightarrow>
               if c = CHR '':'' then
                 (case parse_string (skip_ws r2) of
                    None \<Rightarrow> None
                  | Some (v, r3) \<Rightarrow> Some ((k, v), skip_ws r3))
               else None))"

text \<open>The member parser stops: every member consumes at least its two strings.\<close>

lemma parse_chars_length: "parse_chars inp = Some (s, rest) \<Longrightarrow> length rest < length inp"
proof (induction inp arbitrary: s rule: parse_chars.induct)
  case 1
  then show ?case by simp
next
  case (2 c cs)
  then show ?case
    by (auto simp: push_char_def split: if_splits list.splits option.splits) fastforce+
qed


lemma parse_string_length: "parse_string inp = Some (s, rest) \<Longrightarrow> length rest < length inp"
  by (auto simp: parse_string_def split: list.splits if_splits dest: parse_chars_length)

lemma length_skip_ws: "length (skip_ws inp) \<le> length inp"
  by (simp add: skip_ws_def length_dropWhile_le)

lemma parse_member_length:
  assumes "parse_member inp = Some (m, r)"
  shows "length r < length inp"
proof -
  from assms obtain k r1 c r2 v r3 where
    a: "parse_string (skip_ws inp) = Some (k, r1)" and b: "skip_ws r1 = c # r2"
    and d: "parse_string (skip_ws r2) = Some (v, r3)" and e: "r = skip_ws r3"
    by (auto simp: parse_member_def split: option.splits list.splits if_splits)
  have "length r \<le> length r3" using e length_skip_ws by simp
  also have "\<dots> < length (skip_ws r2)" using parse_string_length [OF d] .
  also have "\<dots> \<le> length r2" by (rule length_skip_ws)
  also have "\<dots> < length (skip_ws r1)" using b by simp
  also have "\<dots> \<le> length r1" by (rule length_skip_ws)
  also have "\<dots> < length (skip_ws inp)" using parse_string_length [OF a] .
  also have "\<dots> \<le> length inp" by (rule length_skip_ws)
  finally show ?thesis .
qed

function parse_members :: "string \<Rightarrow> (string \<times> string) list \<Rightarrow> (string \<times> string) list option" where
  "parse_members inp acc =
     (case parse_member inp of
        None \<Rightarrow> None
      | Some ((k, v), r) \<Rightarrow>
          (case r of
             [] \<Rightarrow> None
           | c # r' \<Rightarrow>
               if c = CHR '','' then parse_members r' (AList.update k v acc)
               else if c = CHR ''}'' then
                 (if skip_ws r' = [] then Some (AList.update k v acc) else None)
               else None))"
  by pat_completeness auto
termination
  by (relation "measure (\<lambda>(inp, acc). length inp)") (auto dest: parse_member_length)

definition JSON_parse :: "string \<Rightarrow> (string \<times> string) list option" where
  "JSON_parse inp =
     (case skip_ws inp of
        [] \<Rightarrow> None
      | c # r \<Rightarrow>
          if c = CHR ''{'' then
            (case skip_ws r of
               [] \<Rightarrow> None
             | d # r' \<Rightarrow>
                 if d = CHR ''}'' then (if skip_ws r' = [] then Some [] else None)
                 else parse_members r [])
          else None)"

text \<open>All members of a property list, added in order to \<open>acc\<close>.\<close>

definition add_all :: "(string \<times> string) list \<Rightarrow> (string \<times> string) list \<Rightarrow> (string \<times> string) list" where
  "add_all acc kvs = foldl (\<lambda>a (k, v). AList.update k v a) acc kvs"

section \<open>The model configuration store (\<^verbatim>\<open>ModelProvider\<close>)\<close>

datatype provider = Gemini | OpenAI | Anthropic | Ollama

fun provider_name :: "provider \<Rightarrow> string" where
  "provider_name Gemini = ''gemini''"
| "provider_name OpenAI = ''openai''"
| "provider_name Anthropic = ''anthropic''"
| "provider_name Ollama = ''ollama''"

record ModelConfig =
  provider :: provider
  model :: string
  apiKey :: string
  endpoint :: "string option"

text \<open>
  The JavaScript object of a \<^verbatim>\<open>ModelConfig\<close>, with its properties in the order in which
  \<^verbatim>\<open>handleSave\<close> creates them; an absent \<^verbatim>\<open>endpoint\<close> is no property.
\<close>

definition config_object :: "ModelConfig \<Rightarrow> js_object" where
  "config_object c =
     [(''provider'', provider_name (provider c)), (''model'', ModelConfig.model c),
      (''apiKey'', ModelConfig.apiKey c)]
     @ (case ModelConfig.endpoint c of None \<Rightarrow> [] | Some e \<Rightarrow> [(''endpoint'', e)])"

text \<open>
  The state \<^verbatim>\<open>currentModel\<close> (\<open>None\<close> for \<^verbatim>\<open>null\<close>) and the item
  \<^verbatim>\<open>datagenesis-model-config\<close> of \<^verbatim>\<open>localStorage\<close> (\<open>None\<close> when there is none).
\<close>

record store =
  currentModel :: "js_object option"
  saved :: "string option"

definition setModel :: "js_object \<Rightarrow> store \<Rightarrow> store" where
  "setModel config st = st\<lparr>currentModel := Some config, saved := Some (JSON_stringify config)\<rparr>"

definition removeModel :: "store \<Rightarrow> store" where
  "removeModel st = st\<lparr>currentModel := None, saved := None\<rparr>"

text \<open>A page reload: the React state starts again at \<^verbatim>\<open>null\<close>, \<^verbatim>\<open>localStorage\<close> stays.\<close>

definition reload :: "store \<Rightarrow> store" where
  "reload st = \<lparr>currentModel = None, saved = saved st\<rparr>"

text \<open>
  The effect run on mount (lines 55 to 66): nothing happens when there is no item or the
  item is the empty string; a text that does not parse is logged and dropped. The result
  is \<open>None\<close> where the model of \<^verbatim>\<open>JSON.parse\<close> does not tell these two apart from a value
  of another shape.
\<close>

definition load_effect :: "store \<Rightarrow> store option" where
  "load_effect st =
     (case saved st of
        None \<Rightarrow> Some st
      | Some item \<Rightarrow>
          if item = [] then Some st
          else (case JSON_parse item of
                  None \<Rightarrow> None
                | Some config \<Rightarrow> Some (st\<lparr>currentModel := Some config\<rparr>)))"

section \<open>Saving a configuration (\<^verbatim>\<open>ModelSelector.handleSave\<close>)\<close>

text \<open>
  \<^verbatim>\<open>String.prototype.trim\<close> removes white space and line terminators at both ends; among
  the code units up to 0xFF these are tab, line feed, vertical tab, form feed, carriage
  return, space and the no-break space.
\<close>

definition is_js_space :: "char \<Rightarrow> bool" where
  "is_js_space c =
     (c = CHR 0x09 \<or> c = CHR 0x0A \<or> c = CHR 0x0B \<or> c = CHR 0x0C \<or> c = CHR 0x0D
      \<or> c = CHR 0x20 \<or> c = CHR 0xA0)"

definition trim :: "string \<Rightarrow> string" where
  "trim s = rev (dropWhile is_js_space (rev (dropWhile is_js_space s)))"

text \<open>The form's state variables.\<close>

record selector =
  selectedProvider :: string
  selectedModel :: string
  apiKey :: string
  endpoint :: string

datatype validation_status = Idle | Validating | Success | Error

text \<open>\<^verbatim>\<open>validationState\<close> without its log lines, which carry the time of day.\<close>

record validationState =
  isValidating :: bool
  status :: validation_status
  message :: string

datatype api_call = ConfigureAI | TestAIConnection

text \<open>
  \<^verbatim>\<open>handleSave\<close> from the answers of the two backend calls: the final validation state,
  the store, and the backend calls made. The first test comes before any \<^verbatim>\<open>await\<close>.
\<close>

definition handleSave ::
  "selector \<Rightarrow> store \<Rightarrow> jsval outcome \<Rightarrow> jsval outcome
     \<Rightarrow> validationState \<times> store \<times> api_call list" where
  "handleSave f st configureOutcome testOutcome =
     (if selectedProvider f \<noteq> ''ollama'' \<and> trim (selector.apiKey f) = [] then
        (\<lparr>isValidating = False, status = Error, message = ''Please enter an API key''\<rparr>,
         st, [])
      else
        (let config =
               [(''provider'', selectedProvider f), (''model'', selectedModel f),
                (''apiKey'', trim (selector.apiKey f))]
               @ (if selectedProvider f = ''ollama''
                  then [(''endpoint'', selector.endpoint f)] else [])
         in case configureOutcome of
              Rejected e \<Rightarrow>
                (\<lparr>isValidating = False, status = Error,
                  message = ''Failed to configure AI service. Please check your credentials.''\<rparr>,
                 st, [ConfigureAI])
            | Resolved r \<Rightarrow>
                (let st' = setModel config st in
                 case testOutcome of
                   Resolved t \<Rightarrow>
                     (\<lparr>isValidating = False, status = Success,
                       message = ''Configuration saved and tested successfully!''\<rparr>,
                      st', [ConfigureAI, TestAIConnection])
                 | Rejected e \<Rightarrow>
                     (\<lparr>isValidating = False, status = Error,
                       message = ''Configuration saved but connection test failed. Please check your credentials.''\<rparr>,
                      st', [ConfigureAI, TestAIConnection]))))"

section \<open>Properties of the process-log buffers\<close>

lemma slice_neg_snoc:
  "slice_neg n (slice_neg n xs @ [x]) = slice_neg n (xs @ [x])"
  by (cases "length xs \<le> n") (simp_all add: slice_neg_def Suc_diff_le)

lemma foldl_DataGenerator:
  "foldl setProcessLogs_DataGenerator (slice_neg 50 b) es = slice_neg 50 (b @ es)"
proof (induction es rule: rev_induct)
  case Nil
  show ?case by simp
next
  case (snoc e es)
  have "foldl setProcessLogs_DataGenerator (slice_neg 50 b) (es @ [e])
          = slice_neg 50 (slice_neg 50 (b @ es) @ [e])"
    by (simp add: snoc.IH setProcessLogs_DataGenerator_def)
  then show ?case by (simp add: slice_neg_snoc)
qed

lemma foldl_RealTimeStatus:
  "foldl setProcessLogs_RealTimeStatus (slice_neg 20 b) es = slice_neg 20 (b @ es)"
proof (induction es rule: rev_induct)
  case Nil
  show ?case by simp
next
  case (snoc e es)
  have "foldl setProcessLogs_RealTimeStatus (slice_neg 20 b) (es @ [e])
          = slice_neg 20 (slice_neg 20 (b @ es) @ [e])"
    by (simp add: snoc.IH setProcessLogs_RealTimeStatus_def)
  then show ?case by (simp add: slice_neg_snoc)
qed

lemma slice_neg_Nil: "slice_neg n [] = []"
  by (simp add: slice_neg_def)

lemma length_slice_neg: "length (slice_neg n xs) \<le> n"
  by (simp add: slice_neg_def)

text \<open>
  C7. Starting from the empty buffer, after any sequence of insertions the full logger
  holds at most 50 entries and the compact monitor at most 20; each holds the most recent
  entries in arrival order, so after capacity + 5 insertions exactly the first five
  entries are gone and the last \<open>capacity\<close> entries remain, in their original order.
\<close>

theorem process_log_buffer_bounded_fifo:
  "length (foldl setProcessLogs_DataGenerator [] es) \<le> 50
   \<and> length (foldl setProcessLogs_RealTimeStatus [] fs) \<le> 20
   \<and> foldl setProcessLogs_DataGenerator [] es = drop (length es - 50) es
   \<and> foldl setProcessLogs_RealTimeStatus [] fs = drop (length fs - 20) fs
   \<and> (length es = 50 + 5 \<longrightarrow> foldl setProcessLogs_DataGenerator [] es = drop 5 es)
   \<and> (length fs = 20 + 5 \<longrightarrow> foldl setProcessLogs_RealTimeStatus [] fs = drop 5 fs)"
proof -
  have dg: "foldl setProcessLogs_DataGenerator [] es = slice_neg 50 es"
    using foldl_DataGenerator [of "[]" es] by (simp add: slice_neg_Nil)
  have rt: "foldl setProcessLogs_RealTimeStatus [] fs = slice_neg 20 fs"
    using foldl_RealTimeStatus [of "[]" fs] by (simp add: slice_neg_Nil)
  show ?thesis
    unfolding dg rt using length_slice_neg [of 50 es] length_slice_neg [of 20 fs]
    by (simp add: slice_neg_def)
qed

theorem process_log_buffer_bounded_fifo_witness:
  "length [0..<55] = 50 + 5
   \<and> foldl setProcessLogs_DataGenerator [] [0..<55] = [5..<55]
   \<and> length [0..<25] = 20 + 5
   \<and> foldl setProcessLogs_RealTimeStatus [] [0..<25] = [5..<25]"
  using process_log_buffer_bounded_fifo [of "[0..<55]" "[0..<25]"] by simp

section \<open>Properties of the event channel\<close>

lemma ws_run_from_snoc: "ws_run_from s (evs @ [e]) = ws_step (ws_run_from s evs) e"
  by (simp add: ws_run_from_def)

lemma ws_run_from_init: "ws_run evs = ws_run_from ws_init evs"
  by (simp add: ws_run_def ws_run_from_def)

lemma ws_run_after_open: "ws_run (pre @ OnOpen # evs) = ws_run_from (onopen (ws_run pre)) evs"
  by (simp add: ws_run_def ws_run_from_def)

lemma reconnectAttempts_fresh: "reconnectAttempts ws_init = 0" "reconnectAttempts (onopen s) = 0"
  by (simp_all add: ws_init_def onopen_def)

lemma ws_run_from_no_open:
  "reconnectAttempts s = 0 \<Longrightarrow> OnOpen \<notin> set evs \<Longrightarrow>
     reconnectAttempts (ws_run_from s evs) = min 3 (count_list evs OnClose)
     \<and> scheduled (ws_run_from s evs)
         = scheduled s @ take (count_list evs OnClose) [2000, 4000, 8000]"
proof (induction evs rule: rev_induct)
  case Nil
  then show ?case by (simp add: ws_run_from_def)
next
  case (snoc e evs)
  then have IH: "reconnectAttempts (ws_run_from s evs) = min 3 (count_list evs OnClose)"
    "scheduled (ws_run_from s evs)
       = scheduled s @ take (count_list evs OnClose) [2000, 4000, 8000]"
    by simp_all
  show ?case
  proof (cases e)
    case OnOpen
    with snoc.prems show ?thesis by simp
  next
    case OnError
    with IH show ?thesis by (simp add: ws_run_from_snoc onerror_def)
  next
    case OnClose
    consider "count_list evs OnClose = 0" | "count_list evs OnClose = 1"
      | "count_list evs OnClose = 2" | "3 \<le> count_list evs OnClose"
      by linarith
    then show ?thesis
    proof cases
      case 1
      with IH OnClose show ?thesis
        by (simp add: ws_run_from_snoc onclose_def maxReconnectAttempts_def Let_def)
    next
      case 2
      with IH OnClose show ?thesis
        by (simp add: ws_run_from_snoc onclose_def maxReconnectAttempts_def Let_def)
    next
      case 3
      with IH OnClose show ?thesis
        by (simp add: ws_run_from_snoc onclose_def maxReconnectAttempts_def Let_def)
    next
      case 4
      with IH OnClose show ?thesis
        by (simp add: ws_run_from_snoc onclose_def maxReconnectAttempts_def Let_def min_def)
    qed
  qed
qed

lemma reconnectAttempts_lower_bound:
  "OnOpen \<notin> set evs \<Longrightarrow>
     min 3 (reconnectAttempts s + count_list evs OnClose) \<le> reconnectAttempts (ws_run_from s evs)"
proof (induction evs rule: rev_induct)
  case Nil
  show ?case by (simp add: ws_run_from_def)
next
  case (snoc e evs)
  then have IH: "min 3 (reconnectAttempts s + count_list evs OnClose)
                   \<le> reconnectAttempts (ws_run_from s evs)"
    by simp
  show ?case
  proof (cases e)
    case OnOpen
    with snoc.prems show ?thesis by simp
  next
    case OnError
    with IH show ?thesis by (simp add: ws_run_from_snoc onerror_def)
  next
    case OnClose
    have step: "reconnectAttempts (ws_run_from s (evs @ [e]))
                  = (if reconnectAttempts (ws_run_from s evs) < 3
                     then reconnectAttempts (ws_run_from s evs) + 1
                     else reconnectAttempts (ws_run_from s evs))"
      by (simp add: OnClose ws_run_from_snoc onclose_def maxReconnectAttempts_def Let_def)
    have cnt: "count_list (evs @ [e]) OnClose = count_list evs OnClose + 1"
      by (simp add: OnClose)
    show ?thesis
      using IH unfolding step cnt min_def by (auto split: if_splits)
  qed
qed

text \<open>
  C5. Take the channel in any state in which the attempt counter is 0: the fresh channel,
  or any channel right after a successful open, whatever happened before. For every run
  of transport events from there without a successful open, the reconnect timers set
  during the run are a prefix of 2000, 4000, 8000 ms, one per close event: the delay of
  the \<open>k\<close>-th timer is \<open>min (1000 * 2 ^ k) 10000\<close> for the already incremented counter
  \<open>k = 1, 2, 3\<close>, and the run never sets a fourth timer.
\<close>

theorem reconnect_delay_sequence:
  assumes "reconnectAttempts s = 0" and "OnOpen \<notin> set evs"
  shows "scheduled (ws_run_from s evs)
           = scheduled s @ take (count_list evs OnClose) [2000, 4000, 8000]
         \<and> scheduled (ws_run_from s evs)
             = scheduled s
               @ map (\<lambda>k. min (1000 * 2 ^ k) 10000) [1 ..< Suc (min 3 (count_list evs OnClose))]
         \<and> length (scheduled (ws_run_from s evs)) \<le> length (scheduled s) + maxReconnectAttempts
         \<and> (3 \<le> count_list evs OnClose \<longrightarrow>
              scheduled (ws_run_from s evs) = scheduled s @ [2000, 4000, 8000])"
proof -
  have s: "scheduled (ws_run_from s evs)
             = scheduled s @ take (count_list evs OnClose) [2000, 4000, 8000]"
    using ws_run_from_no_open [OF assms] by simp
  consider "count_list evs OnClose = 0" | "count_list evs OnClose = 1"
    | "count_list evs OnClose = 2" | "3 \<le> count_list evs OnClose"
    by linarith
  then show ?thesis
  proof cases
    case 1
    with s show ?thesis by (simp add: maxReconnectAttempts_def)
  next
    case 2
    with s show ?thesis by (simp add: maxReconnectAttempts_def)
  next
    case 3
    with s show ?thesis by (simp add: maxReconnectAttempts_def upt_rec)
  next
    case 4
    with s show ?thesis by (simp add: maxReconnectAttempts_def upt_rec min_def)
  qed
qed

theorem reconnect_delay_sequence_witness:
  "reconnectAttempts (ws_run [OnClose, OnError, OnOpen]) = 0
   \<and> scheduled (ws_run [OnClose, OnError, OnOpen]) = [2000]
   \<and> OnOpen \<notin> set [OnError, OnClose, OnError, OnClose, OnClose, OnClose, OnClose]
   \<and> 3 \<le> count_list [OnError, OnClose, OnError, OnClose, OnClose, OnClose, OnClose] OnClose
   \<and> scheduled (ws_run_from (ws_run [OnClose, OnError, OnOpen])
        [OnError, OnClose, OnError, OnClose, OnClose, OnClose, OnClose])
       = [2000, 2000, 4000, 8000]"
  using reconnect_delay_sequence
    [of "ws_run [OnClose, OnError, OnOpen]"
        "[OnError, OnClose, OnError, OnClose, OnClose, OnClose, OnClose]"]
  by (simp add: ws_run_def ws_init_def onclose_def onerror_def onopen_def
        maxReconnectAttempts_def Let_def)

text \<open>
  C6, as stated, fails: the third consecutive close still sets a reconnect timer (of
  8000 ms) and sets no error.
\<close>

theorem third_close_not_terminal_counterexample:
  "scheduled (ws_run [OnClose, OnClose, OnClose]) = scheduled (ws_run [OnClose, OnClose]) @ [8000]
   \<and> ws_state.error (ws_run [OnClose, OnClose, OnClose]) = None"
  by (simp add: ws_run_def ws_init_def onclose_def maxReconnectAttempts_def Let_def)

text \<open>
  C6, amended. After a run of transport events without a successful open that has at
  least three close events, from any state of the channel, the next close event (the
  fourth of the run, or any later one) leaves the channel disconnected with the error
  \<^verbatim>\<open>Failed to establish WebSocket connection after multiple attempts\<close> and sets no timer.
  When the run started with the attempt counter at 0 (the fresh channel, or right after a
  successful open), its close events have set the three timers of 2000, 4000, 8000 ms.
\<close>

theorem close_after_three_is_terminal:
  assumes "OnOpen \<notin> set evs" and "3 \<le> count_list evs OnClose"
  shows "ws_state.error (ws_run_from s (evs @ [OnClose]))
           = Some ''Failed to establish WebSocket connection after multiple attempts''
         \<and> \<not> isConnected (ws_run_from s (evs @ [OnClose]))
         \<and> scheduled (ws_run_from s (evs @ [OnClose])) = scheduled (ws_run_from s evs)
         \<and> (reconnectAttempts s = 0 \<longrightarrow>
              scheduled (ws_run_from s evs) = scheduled s @ [2000, 4000, 8000])"
proof -
  have "3 \<le> reconnectAttempts (ws_run_from s evs)"
    using reconnectAttempts_lower_bound [OF assms(1), of s] assms(2) by simp
  then have a: "ws_state.error (ws_run_from s (evs @ [OnClose]))
           = Some ''Failed to establish WebSocket connection after multiple attempts''
         \<and> \<not> isConnected (ws_run_from s (evs @ [OnClose]))
         \<and> scheduled (ws_run_from s (evs @ [OnClose])) = scheduled (ws_run_from s evs)"
    by (simp add: ws_run_from_snoc onclose_def maxReconnectAttempts_def Let_def)
  have b: "reconnectAttempts s = 0 \<Longrightarrow>
             scheduled (ws_run_from s evs) = scheduled s @ [2000, 4000, 8000]"
    using ws_run_from_no_open [OF _ assms(1), of s] assms(2) by simp
  show ?thesis using a b by blast
qed

theorem close_after_three_is_terminal_witness:
  "OnOpen \<notin> set [OnClose, OnError, OnClose, OnClose]
   \<and> 3 \<le> count_list [OnClose, OnError, OnClose, OnClose] OnClose
   \<and> reconnectAttempts (ws_run [OnClose, OnOpen]) = 0
   \<and> scheduled (ws_run [OnClose, OnOpen]) = [2000]
   \<and> ws_state.error (ws_run_from (ws_run [OnClose, OnOpen])
        ([OnClose, OnError, OnClose, OnClose] @ [OnClose]))
       = Some ''Failed to establish WebSocket connection after multiple attempts''
   \<and> scheduled (ws_run_from (ws_run [OnClose, OnOpen])
        ([OnClose, OnError, OnClose, OnClose] @ [OnClose])) = [2000, 2000, 4000, 8000]"
  using close_after_three_is_terminal
    [of "[OnClose, OnError, OnClose, OnClose]" "ws_run [OnClose, OnOpen]"]
  by (simp add: ws_run_def ws_init_def onclose_def onopen_def maxReconnectAttempts_def Let_def)

section \<open>Properties of the status aggregator\<close>

lemma published_Rejected: "published (Rejected e) ao t0 t1 = errorStatus e t1"
  by (simp add: published_def poll_cycle_def)

lemma backend_with_agent_status:
  "backend (fst (with_agent_status hr ao st)) = backend st"
  "gemini (fst (with_agent_status hr ao st)) = gemini st"
  by (simp_all add: with_agent_status_def split: outcome.splits sum.splits option.splits)

lemma published_Resolved:
  "published (Resolved hr) ao t0 t1
     = determine_overall (fst (with_agent_status hr ao (newStatus_primary hr t1 (t1 - t0))))"
  by (simp add: published_def poll_cycle_def Let_def split: prod.splits)

lemma backend_determine_overall: "backend (determine_overall st) = backend st"
  "gemini (determine_overall st) = gemini st" "agents (determine_overall st) = agents st"
  by (simp_all add: determine_overall_def)

lemma backend_published_Resolved:
  "backend (published (Resolved hr) ao t0 t1) = backend (newStatus_primary hr t1 (t1 - t0))"
  by (simp add: published_Resolved backend_determine_overall backend_with_agent_status)

lemma overall_determine:
  "\<not> backend.healthy (backend st) \<Longrightarrow> overall.status (overall (determine_overall st)) = Unhealthy"
  by (simp add: determine_overall_def)

lemma published_unhealthy:
  "\<not> backend.healthy (backend (published ho ao t0 t1)) \<Longrightarrow>
     overall.status (overall (published ho ao t0 t1)) = Unhealthy"
proof (cases ho)
  case (Rejected e)
  then show ?thesis by (simp add: published_Rejected errorStatus_def)
next
  case (Resolved hr)
  assume "\<not> backend.healthy (backend (published ho ao t0 t1))"
  with Resolved have "\<not> backend.healthy (backend (fst (with_agent_status hr ao (newStatus_primary hr t1 (t1 - t0)))))"
    by (simp add: published_Resolved backend_determine_overall)
  then show ?thesis unfolding Resolved published_Resolved by (rule overall_determine)
qed

lemma hook_run_snoc: "hook_run (evs @ [e]) = hook_step (hook_run evs) e"
  by (simp add: hook_run_def)

lemma status_checkSystemStatus:
  "hook_state.status (checkSystemStatus captured s now) = hook_state.status s"
  by (simp add: checkSystemStatus_def)

lemma hook_status_inv:
  "\<not> backend.healthy (backend (hook_state.status (hook_run evs))) \<Longrightarrow>
     overall.status (overall (hook_state.status (hook_run evs))) = Unhealthy"
proof (induction evs rule: rev_induct)
  case Nil
  show ?case by (simp add: hook_run_def hook_init_def initial_status_def)
next
  case (snoc e evs)
  show ?case
  proof (cases e)
    case Render
    with snoc show ?thesis by (simp add: hook_run_snoc)
  next
    case (Invoke now)
    with snoc show ?thesis by (simp add: hook_run_snoc status_checkSystemStatus)
  next
    case (Settle ho ao now)
    show ?thesis
    proof (cases "suspended (hook_run evs)")
      case Nil
      with snoc Settle show ?thesis by (simp add: hook_run_snoc settle_def)
    next
      case (Cons t0 rest)
      with snoc.prems Settle show ?thesis
        by (simp add: hook_run_snoc settle_def published_unhealthy)
    qed
  qed
qed

text \<open>
  C1. Whatever the two probes answer, the status a poll cycle publishes has the overall
  status \<open>Unhealthy\<close> whenever its \<open>backend.healthy\<close> is false: on the normal path (the
  health check resolves, here with \<open>healthy = false\<close>) and on the exception path (the
  health check rejects). The same holds for the stored status after every sequence of
  invocations and settled cycles, from the initial status on.
\<close>

theorem unhealthy_backend_unhealthy_verdict:
  "(\<not> backend.healthy (backend (published ho ao t0 t1)) \<longrightarrow>
      overall.status (overall (published ho ao t0 t1)) = Unhealthy)
   \<and> (\<not> healthResponse.healthy hr \<longrightarrow>
        \<not> backend.healthy (backend (published (Resolved hr) ao t0 t1))
        \<and> overall.status (overall (published (Resolved hr) ao t0 t1)) = Unhealthy)
   \<and> \<not> backend.healthy (backend (published (Rejected e) ao t0 t1))
   \<and> overall.status (overall (published (Rejected e) ao t0 t1)) = Unhealthy
   \<and> (\<not> backend.healthy (backend (hook_state.status (hook_run evs))) \<longrightarrow>
        overall.status (overall (hook_state.status (hook_run evs))) = Unhealthy)"
proof -
  have a: "\<not> healthResponse.healthy hr \<Longrightarrow>
      \<not> backend.healthy (backend (published (Resolved hr) ao t0 t1))"
    by (simp add: backend_published_Resolved newStatus_primary_def)
  have b: "\<not> backend.healthy (backend (published (Rejected e) ao t0 t1))"
    by (simp add: published_Rejected errorStatus_def)
  show ?thesis
    using a b published_unhealthy [of ho ao t0 t1] published_unhealthy [of "Resolved hr" ao t0 t1]
      published_unhealthy [of "Rejected e" ao t0 t1] hook_status_inv [of evs]
    by blast
qed

theorem unhealthy_backend_unhealthy_verdict_witness:
  "\<not> backend.healthy (backend (published
        (Resolved \<lparr>healthResponse.healthy = False, data = JUndefined\<rparr>) (Resolved JUndefined) 0 30))
   \<and> overall.status (overall (published
        (Resolved \<lparr>healthResponse.healthy = False, data = JUndefined\<rparr>) (Resolved JUndefined) 0 30))
       = Unhealthy
   \<and> \<not> backend.healthy (backend (hook_state.status (hook_run
        [Invoke 0, Settle (Resolved \<lparr>healthResponse.healthy = False, data = JUndefined\<rparr>)
                          (Resolved JUndefined) 30])))
   \<and> overall.status (overall (hook_state.status (hook_run
        [Invoke 0, Settle (Resolved \<lparr>healthResponse.healthy = False, data = JUndefined\<rparr>)
                          (Resolved JUndefined) 30])))
       = Unhealthy"
  using unhealthy_backend_unhealthy_verdict
    [of "Resolved \<lparr>healthResponse.healthy = False, data = JUndefined\<rparr>" "Resolved JUndefined" 0 30
        "\<lparr>healthResponse.healthy = False, data = JUndefined\<rparr>" "ErrorObj []"
        "[Invoke 0, Settle (Resolved \<lparr>healthResponse.healthy = False, data = JUndefined\<rparr>)
                          (Resolved JUndefined) 30]"]
  by (simp add: hook_run_def hook_init_def checkSystemStatus_def settle_def
        backend_published_Resolved newStatus_primary_def)

text \<open>
  C4. The guard of \<^verbatim>\<open>checkSystemStatus\<close> reads the \<^verbatim>\<open>isChecking\<close> of the render that created
  the callback. A callback that captured \<open>true\<close> returns the state as it is. But two calls
  of the callbacks of one render, with no render between them, both pass the guard: after
  the first call \<^verbatim>\<open>isChecking\<close> has been set and a cycle is in flight, and yet the second
  call is no no-op, it calls the health check again and two invocations are suspended at
  once. Only after React has rendered again is a call dropped.
\<close>

theorem guard_misses_call_of_same_render:
  "checkSystemStatus True s now = s
   \<and> isChecking (hook_run [Invoke 0])
   \<and> suspended (hook_run [Invoke 0]) = [0]
   \<and> forceCheck (rendered (hook_run [Invoke 0])) (hook_run [Invoke 0]) 5 \<noteq> hook_run [Invoke 0]
   \<and> healthCalls (hook_run [Invoke 0, Invoke 5]) = 2
   \<and> suspended (hook_run [Invoke 0, Invoke 5]) = [0, 5]
   \<and> healthCalls (hook_run [Invoke 0, Render, Invoke 5]) = 1
   \<and> suspended (hook_run [Invoke 0, Render, Invoke 5]) = [0]"
  by (simp add: hook_run_def hook_init_def checkSystemStatus_def forceCheck_def)


lemma with_agent_status_unhealthy:
  "\<not> healthResponse.healthy hr \<Longrightarrow> with_agent_status hr ao st = (st, False)"
  by (simp add: with_agent_status_def)


lemma secondary_called_Resolved:
  "secondary_called (Resolved hr) ao t0 t1
     = snd (with_agent_status hr ao (newStatus_primary hr t1 (t1 - t0)))"
  by (simp add: secondary_called_def poll_cycle_def Let_def split: prod.splits)

lemma agents_published_Resolved:
  "agents (published (Resolved hr) ao t0 t1)
     = agents (fst (with_agent_status hr ao (newStatus_primary hr t1 (t1 - t0))))"
  by (simp add: published_Resolved backend_determine_overall)

lemma agents_newStatus_primary:
  "agents (newStatus_primary hr now el)
     = \<lparr>active = (opt_chain (services hr) ''agents'' = JStr ''active''),
        total = JNum 5,
        operational = (if opt_chain (services hr) ''agents'' = JStr ''active'' then 5 else 0),
        details = None\<rparr>"
  by (simp add: newStatus_primary_def)

lemma services_no_data: "data hr = JUndefined \<Longrightarrow> opt_chain (services hr) k = JUndefined"
  by (simp add: services_def opt_chain_def nullish_def)

text \<open>
  C2, as stated, fails: when the health check resolves with \<open>healthy = false\<close>, the
  gemini status is \<open>Online\<close>, not \<open>Offline\<close>, and the fields derived from the payload are
  not skipped: a payload that reports the agents active gives \<open>agents.active = true\<close>.
\<close>

theorem unhealthy_probe_gemini_not_offline_counterexample:
  "gemini.status (gemini (published
      (Resolved \<lparr>healthResponse.healthy = False,
                 data = JObj [(''services'', JObj [(''agents'', JStr ''active'')])]\<rparr>)
      (Resolved JUndefined) 0 30)) = Online
   \<and> active (agents (published
      (Resolved \<lparr>healthResponse.healthy = False,
                 data = JObj [(''services'', JObj [(''agents'', JStr ''active'')])]\<rparr>)
      (Resolved JUndefined) 0 30))
   \<and> gemini.status (gemini (published
      (Resolved \<lparr>healthResponse.healthy = False, data = JUndefined\<rparr>)
      (Resolved JUndefined) 0 30)) \<noteq> Offline"
  by (simp add: published_Resolved backend_determine_overall with_agent_status_unhealthy
        newStatus_primary_def services_def opt_chain_def nullish_def)

text \<open>
  C2, amended. When the health check resolves with \<open>healthy = false\<close>, the published
  status has \<open>backend.healthy = false\<close>, \<open>backend.error = 'Connection failed'\<close> and the
  overall status \<open>Unhealthy\<close>, and the secondary probe is not called. The agents fields
  are the ones derived from the payload of the health check: \<open>agents.active\<close> is true
  exactly when the payload has \<^verbatim>\<open>services.agents === 'active'\<close>, so it is false when the
  health check returned no data.
\<close>

theorem unhealthy_probe_cycle:
  assumes "\<not> healthResponse.healthy hr"
  shows "\<not> backend.healthy (backend (published (Resolved hr) ao t0 t1))
         \<and> backend.error (backend (published (Resolved hr) ao t0 t1)) = Some ''Connection failed''
         \<and> overall.status (overall (published (Resolved hr) ao t0 t1)) = Unhealthy
         \<and> \<not> secondary_called (Resolved hr) ao t0 t1
         \<and> agents (published (Resolved hr) ao t0 t1) = agents (newStatus_primary hr t1 (t1 - t0))
         \<and> active (agents (published (Resolved hr) ao t0 t1))
             = (opt_chain (services hr) ''agents'' = JStr ''active'')
         \<and> (data hr = JUndefined \<longrightarrow> \<not> active (agents (published (Resolved hr) ao t0 t1)))"
proof -
  have b: "backend (published (Resolved hr) ao t0 t1)
             = \<lparr>backend.healthy = False, lastCheck = Some t1, responseTime = t1 - t0,
                error = Some ''Connection failed''\<rparr>"
    using assms by (simp add: backend_published_Resolved newStatus_primary_def)
  have o: "overall.status (overall (published (Resolved hr) ao t0 t1)) = Unhealthy"
    by (rule published_unhealthy) (simp add: b)
  have c: "\<not> secondary_called (Resolved hr) ao t0 t1"
    using assms by (simp add: secondary_called_Resolved with_agent_status_unhealthy)
  have a: "agents (published (Resolved hr) ao t0 t1) = agents (newStatus_primary hr t1 (t1 - t0))"
    using assms by (simp add: agents_published_Resolved with_agent_status_unhealthy)
  show ?thesis
    by (simp add: b o c a agents_newStatus_primary services_no_data)
qed

theorem unhealthy_probe_cycle_witness:
  "\<not> healthResponse.healthy \<lparr>healthResponse.healthy = False, data = JUndefined\<rparr>
   \<and> data \<lparr>healthResponse.healthy = False, data = JUndefined\<rparr> = JUndefined
   \<and> backend.error (backend (published
        (Resolved \<lparr>healthResponse.healthy = False, data = JUndefined\<rparr>) (Resolved JUndefined) 0 30))
       = Some ''Connection failed''
   \<and> \<not> active (agents (published
        (Resolved \<lparr>healthResponse.healthy = False, data = JUndefined\<rparr>) (Resolved JUndefined) 0 30))"
  using unhealthy_probe_cycle
    [of "\<lparr>healthResponse.healthy = False, data = JUndefined\<rparr>" "Resolved JUndefined" 0 30]
  by (simp add: agents_newStatus_primary services_no_data)





lemma agents_with_agent_status_Some:
  "healthResponse.healthy hr \<Longrightarrow> agents_secondary v = Inr (Some a) \<Longrightarrow>
     agents (fst (with_agent_status hr (Resolved v) st)) = a"
  by (simp add: with_agent_status_def)

lemma agents_with_agent_status_other:
  "agents_secondary v = Inr None \<or> agents_secondary v = Inl x \<Longrightarrow>
     agents (fst (with_agent_status hr (Resolved v) st)) = agents st"
  by (auto simp add: with_agent_status_def)

lemma agents_with_agent_status_Rejected:
  "agents (fst (with_agent_status hr (Rejected e) st)) = agents st"
  by (simp add: with_agent_status_def)

lemma agents_invariant_primary: "agents_invariant (agents (newStatus_primary hr now el))"
  by (simp add: agents_newStatus_primary agents_invariant_def)

lemma agents_secondary_Some:
  "agents_secondary v = Inr (Some a) \<Longrightarrow>
     total a = js_or (js_get v ''total_agents'') (JNum 5)
     \<and> count_active (Object_values (js_get v ''agents'')) = Inr (operational a)"
  by (auto simp add: agents_secondary_def split: if_splits sum.splits)

text \<open>
  C10, as stated, fails: a secondary response with \<^verbatim>\<open>total_agents = 1\<close> and two agents of
  status \<^verbatim>\<open>'active'\<close> gives \<open>operational = 2\<close> and \<open>total = 1\<close>.
\<close>

theorem operational_exceeds_total_counterexample:
  "operational (agents (published
      (Resolved \<lparr>healthResponse.healthy = True, data = JUndefined\<rparr>)
      (Resolved (JObj [(''orchestrator_status'', JStr ''active''), (''total_agents'', JNum 1),
         (''agents'', JObj [(''privacy'', JObj [(''status'', JStr ''active'')]),
                            (''quality'', JObj [(''status'', JStr ''active'')])])]))
      0 30)) = 2
   \<and> total (agents (published
      (Resolved \<lparr>healthResponse.healthy = True, data = JUndefined\<rparr>)
      (Resolved (JObj [(''orchestrator_status'', JStr ''active''), (''total_agents'', JNum 1),
         (''agents'', JObj [(''privacy'', JObj [(''status'', JStr ''active'')]),
                            (''quality'', JObj [(''status'', JStr ''active'')])])]))
      0 30)) = JNum 1
   \<and> \<not> agents_invariant (agents (published
      (Resolved \<lparr>healthResponse.healthy = True, data = JUndefined\<rparr>)
      (Resolved (JObj [(''orchestrator_status'', JStr ''active''), (''total_agents'', JNum 1),
         (''agents'', JObj [(''privacy'', JObj [(''status'', JStr ''active'')]),
                            (''quality'', JObj [(''status'', JStr ''active'')])])]))
      0 30))"
  by (simp add: agents_published_Resolved with_agent_status_def agents_secondary_def
        member_def nullish_def js_or_def agents_invariant_def)

text \<open>
  C10, amended. \<open>operational \<le> total\<close> holds in the initial status and in every published
  status whose agents fields are not taken from a secondary response: on the exception
  path, when the health check is unhealthy, when the secondary probe throws, when its
  response has no agents, and when reading an agent throws. When the agents fields are
  taken from a secondary response, \<open>total\<close> is \<^verbatim>\<open>total_agents || 5\<close> and \<open>operational\<close> is the
  number of agents with status \<^verbatim>\<open>'active'\<close>, and the invariant holds exactly when that
  total is a number not below that count.
\<close>

theorem operational_le_total_unless_secondary:
  "agents_invariant (agents initial_status)
   \<and> agents_invariant (agents (published (Rejected e) ao t0 t1))
   \<and> (\<not> healthResponse.healthy hr \<longrightarrow>
        agents_invariant (agents (published (Resolved hr) ao t0 t1)))
   \<and> agents_invariant (agents (published (Resolved hr') (Rejected e) t0 t1))
   \<and> (agents_secondary v = Inr None \<longrightarrow>
        agents_invariant (agents (published (Resolved hr') (Resolved v) t0 t1)))
   \<and> (agents_secondary w = Inl x \<longrightarrow>
        agents_invariant (agents (published (Resolved hr') (Resolved w) t0 t1)))
   \<and> (healthResponse.healthy hr' \<and> agents_secondary u = Inr (Some a) \<longrightarrow>
        agents (published (Resolved hr') (Resolved u) t0 t1) = a
        \<and> total a = js_or (js_get u ''total_agents'') (JNum 5)
        \<and> count_active (Object_values (js_get u ''agents'')) = Inr (operational a)
        \<and> (agents_invariant a \<longleftrightarrow> (\<exists>n. total a = JNum n \<and> int (operational a) \<le> n)))"
proof -
  have i: "agents_invariant (agents initial_status)"
    by (simp add: initial_status_def agents_invariant_def)
  have r: "agents_invariant (agents (published (Rejected e) ao t0 t1))"
    by (simp add: published_Rejected errorStatus_def agents_invariant_def)
  have u: "\<not> healthResponse.healthy hr \<Longrightarrow>
        agents_invariant (agents (published (Resolved hr) ao t0 t1))"
    by (simp add: agents_published_Resolved with_agent_status_unhealthy agents_invariant_primary)
  have j: "agents_invariant (agents (published (Resolved hr') (Rejected e) t0 t1))"
    by (simp add: agents_published_Resolved agents_with_agent_status_Rejected
          agents_invariant_primary)
  have n: "agents_secondary v = Inr None \<Longrightarrow>
        agents_invariant (agents (published (Resolved hr') (Resolved v) t0 t1))"
    by (simp add: agents_published_Resolved agents_with_agent_status_other
          agents_invariant_primary)
  have l: "agents_secondary w = Inl x \<Longrightarrow>
        agents_invariant (agents (published (Resolved hr') (Resolved w) t0 t1))"
    using agents_with_agent_status_other [of w x hr']
    by (simp add: agents_published_Resolved agents_invariant_primary)
  have s: "healthResponse.healthy hr' \<Longrightarrow> agents_secondary u = Inr (Some a) \<Longrightarrow>
        agents (published (Resolved hr') (Resolved u) t0 t1) = a"
    by (simp add: agents_published_Resolved agents_with_agent_status_Some)
  have q: "agents_invariant a \<longleftrightarrow> (\<exists>n. total a = JNum n \<and> int (operational a) \<le> n)"
    by (cases "total a") (simp_all add: agents_invariant_def)
  show ?thesis
    using i r u j n l s q agents_secondary_Some [of u a] by blast
qed

theorem operational_le_total_unless_secondary_witness:
  "\<not> healthResponse.healthy \<lparr>healthResponse.healthy = False, data = JUndefined\<rparr>
   \<and> agents_secondary (JObj []) = Inr None
   \<and> agents_secondary (JObj [(''agents'', JArr [JNull])])
       = Inl (ErrorObj ''Cannot read properties of undefined or null'')
   \<and> agents_secondary (JObj [(''total_agents'', JNum 3),
        (''agents'', JObj [(''privacy'', JObj [(''status'', JStr ''active'')])])])
       = Inr (Some \<lparr>active = False, total = JNum 3, operational = 1,
                    details = Some (JObj [(''privacy'', JObj [(''status'', JStr ''active'')])])\<rparr>)
   \<and> agents_invariant (agents (published
        (Resolved \<lparr>healthResponse.healthy = True, data = JUndefined\<rparr>)
        (Resolved (JObj [(''total_agents'', JNum 3),
           (''agents'', JObj [(''privacy'', JObj [(''status'', JStr ''active'')])])])) 0 30))"
  using operational_le_total_unless_secondary
    [of "ErrorObj []" "Resolved JUndefined" 0 30
        "\<lparr>healthResponse.healthy = False, data = JUndefined\<rparr>"
        "\<lparr>healthResponse.healthy = True, data = JUndefined\<rparr>"
        "JObj []"
        "JObj [(''agents'', JArr [JNull])]" "ErrorObj ''Cannot read properties of undefined or null''"
        "JObj [(''total_agents'', JNum 3),
           (''agents'', JObj [(''privacy'', JObj [(''status'', JStr ''active'')])])]"
        "\<lparr>active = False, total = JNum 3, operational = 1,
                    details = Some (JObj [(''privacy'', JObj [(''status'', JStr ''active'')])])\<rparr>"]
  by (simp add: agents_secondary_def member_def nullish_def js_or_def)

section \<open>Properties of the JSON text\<close>

lemma skip_ws_noop: "\<not> is_json_ws c \<Longrightarrow> skip_ws (c # cs) = c # cs"
  by (simp add: skip_ws_def)

lemma skip_ws_Nil: "skip_ws [] = []"
  by (simp add: skip_ws_def)

lemma hex_val_hex_digit: "d < 16 \<Longrightarrow> hex_val (hex_digit d) = Some d"
  by (auto simp: hex_val_def hex_digit_def Let_def)

lemma hex4_control:
  assumes "n < 32"
  shows "hex4 (CHR ''0'') (CHR ''0'') (hex_digit (n div 16)) (hex_digit (n mod 16)) = Some n"
proof -
  have z: "hex_val (CHR ''0'') = Some 0" by (simp add: hex_val_def)
  have a: "hex_val (hex_digit (n div 16)) = Some (n div 16)"
    using assms by (intro hex_val_hex_digit) simp
  have b: "hex_val (hex_digit (n mod 16)) = Some (n mod 16)"
    by (intro hex_val_hex_digit) simp
  show ?thesis by (simp add: hex4_def z a b)
qed

lemma parse_chars_escape_char:
  "parse_chars (escape_char c @ r) = push_char c (parse_chars r)"
proof -
  consider (short) "c \<in> {CHR 0x08, CHR 0x09, CHR 0x0A, CHR 0x0C, CHR 0x0D, CHR 0x22, CHR 0x5C}"
    | (ctl) "c \<notin> {CHR 0x08, CHR 0x09, CHR 0x0A, CHR 0x0C, CHR 0x0D, CHR 0x22, CHR 0x5C}"
        "(of_char c :: nat) < 0x20"
    | (raw) "c \<notin> {CHR 0x08, CHR 0x09, CHR 0x0A, CHR 0x0C, CHR 0x0D, CHR 0x22, CHR 0x5C}"
        "\<not> (of_char c :: nat) < 0x20"
    by blast
  then show ?thesis
  proof cases
    case short
    then show ?thesis by (auto simp: escape_char_def unescape_def)
  next
    case ctl
    then have e: "escape_char c = [CHR 0x5C, CHR ''u'', CHR ''0'', CHR ''0'',
         hex_digit ((of_char c :: nat) div 16), hex_digit ((of_char c :: nat) mod 16)]"
      by (simp add: escape_char_def)
    have h: "hex4 (CHR ''0'') (CHR ''0'') (hex_digit ((of_char c :: nat) div 16))
               (hex_digit ((of_char c :: nat) mod 16)) = Some (of_char c)"
      using ctl(2) by (intro hex4_control) simp
    have lt: "(of_char c :: nat) < 256" using ctl(2) by simp
    show ?thesis by (simp add: e h lt)
  next
    case raw
    then show ?thesis by (simp add: escape_char_def)
  qed
qed

lemma parse_chars_body:
  "parse_chars (concat (map escape_char s) @ CHR 0x22 # rest) = Some (s, rest)"
  by (induction s) (simp_all add: parse_chars_escape_char push_char_def)

lemma parse_string_quote:
  "parse_string (QuoteJSONString s @ rest) = Some (s, rest)"
  by (simp add: parse_string_def QuoteJSONString_def parse_chars_body)


lemma parse_member_text:
  "parse_member (QuoteJSONString k @ CHR '':'' # QuoteJSONString v @ rest)
     = Some ((k, v), skip_ws rest)"
proof -
  have q: "skip_ws (QuoteJSONString x @ r) = QuoteJSONString x @ r" for x r
    by (simp add: QuoteJSONString_def skip_ws_noop is_json_ws_def)
  have c: "skip_ws (CHR '':'' # r) = CHR '':'' # r" for r
    by (simp add: skip_ws_noop is_json_ws_def)
  show ?thesis
    by (simp add: parse_member_def q parse_string_quote c)
qed

lemma parse_members_text:
  "kvs \<noteq> [] \<Longrightarrow> parse_members (members_text kvs @ ''}'') acc = Some (add_all acc kvs)"
proof (induction kvs arbitrary: acc rule: members_text.induct)
  case 1
  then show ?case by simp
next
  case (2 k v)
  have "parse_member (QuoteJSONString k @ CHR '':'' # QuoteJSONString v @ ''}'')
          = Some ((k, v), ''}'')"
    by (simp add: parse_member_text skip_ws_noop is_json_ws_def)
  then show ?case by (simp add: add_all_def skip_ws_Nil)
next
  case (3 k v p rest)
  have "parse_member (QuoteJSONString k @ CHR '':'' # QuoteJSONString v
           @ CHR '','' # members_text (p # rest) @ ''}'')
          = Some ((k, v), CHR '','' # members_text (p # rest) @ ''}'')"
    by (simp add: parse_member_text skip_ws_noop is_json_ws_def)
  then have "parse_members (members_text ((k, v) # p # rest) @ ''}'') acc
          = parse_members (members_text (p # rest) @ ''}'') (AList.update k v acc)"
    by simp
  also have "\<dots> = Some (add_all (AList.update k v acc) (p # rest))"
    by (rule "3.IH") simp
  finally show ?case by (simp add: add_all_def)
qed

lemma update_fresh: "k \<notin> fst ` set acc \<Longrightarrow> AList.update k v acc = acc @ [(k, v)]"
  by (induction acc) auto

lemma add_all_distinct:
  "distinct (map fst (acc @ kvs)) \<Longrightarrow> add_all acc kvs = acc @ kvs"
proof (induction kvs arbitrary: acc)
  case Nil
  show ?case by (simp add: add_all_def)
next
  case (Cons p kvs)
  obtain k v where p: "p = (k, v)" by (cases p)
  from Cons.prems p have f: "k \<notin> fst ` set acc" by auto
  from Cons.prems p have d: "distinct (map fst ((acc @ [(k, v)]) @ kvs))" by auto
  have "add_all acc (p # kvs) = add_all (AList.update k v acc) kvs"
    by (simp add: add_all_def p)
  also have "\<dots> = add_all (acc @ [(k, v)]) kvs" by (simp add: update_fresh [OF f])
  also have "\<dots> = (acc @ [(k, v)]) @ kvs" by (rule Cons.IH [OF d])
  finally show ?case by (simp add: p)
qed

lemma members_text_starts:
  "kvs \<noteq> [] \<Longrightarrow> \<exists>r. members_text kvs = CHR 0x22 # r"
  by (induction kvs rule: members_text.induct) (simp_all add: QuoteJSONString_def)

lemma JSON_parse_stringify:
  assumes "distinct (map fst kvs)"
  shows "JSON_parse (JSON_stringify kvs) = Some kvs"
proof (cases "kvs = []")
  case True
  then show ?thesis
    by (simp add: JSON_parse_def JSON_stringify_def skip_ws_noop is_json_ws_def skip_ws_Nil)
next
  case False
  then obtain r where r: "members_text kvs = CHR 0x22 # r"
    using members_text_starts by blast
  have "JSON_parse (JSON_stringify kvs) = parse_members (members_text kvs @ ''}'') []"
    by (simp add: JSON_parse_def JSON_stringify_def skip_ws_noop is_json_ws_def r)
  also have "\<dots> = Some (add_all [] kvs)" by (rule parse_members_text [OF False])
  also have "\<dots> = Some kvs" using add_all_distinct [of "[]" kvs] assms by simp
  finally show ?thesis .
qed

section \<open>Properties of the model configuration store\<close>

lemma distinct_config_object: "distinct (map fst (config_object c))"
  by (cases "ModelConfig.endpoint c") (simp_all add: config_object_def)

lemma JSON_stringify_not_empty: "JSON_stringify kvs \<noteq> []"
  by (simp add: JSON_stringify_def)

text \<open>
  C8. For every model configuration (any of the four providers, any model and API key,
  with or without an endpoint), \<^verbatim>\<open>setModel\<close> followed by a reload, which starts from
  \<^verbatim>\<open>null\<close> and runs the load effect on the stored text, ends: the text parses and the
  configuration in memory is again the object that was set; the stored text is untouched.
\<close>

theorem model_config_round_trip:
  "load_effect (reload (setModel (config_object c) st))
     = Some \<lparr>currentModel = Some (config_object c),
             saved = Some (JSON_stringify (config_object c))\<rparr>
   \<and> currentModel (setModel (config_object c) st) = Some (config_object c)
   \<and> JSON_parse (JSON_stringify (config_object c)) = Some (config_object c)"
  by (simp add: load_effect_def reload_def setModel_def JSON_stringify_not_empty
        JSON_parse_stringify [OF distinct_config_object])

text \<open>
  C9. Saving the configuration with the provider \<^verbatim>\<open>openai\<close>, the model \<^verbatim>\<open>gpt-4\<close> and the
  API key \<^verbatim>\<open>''\<close>, and in general with any provider other than \<^verbatim>\<open>ollama\<close> and an API key
  that is empty (also after trimming), is rejected by \<^verbatim>\<open>handleSave\<close> before its first
  \<^verbatim>\<open>await\<close>: whatever the backend would answer, the result is the validation error
  \<^verbatim>\<open>Please enter an API key\<close>, no backend call is made and \<^verbatim>\<open>setModel\<close> is not reached, so
  the configuration in memory and the durable storage are what they were.
\<close>

theorem handleSave_rejects_empty_key:
  assumes "selectedProvider f \<noteq> ''ollama''" and "trim (selector.apiKey f) = []"
  shows "handleSave f st configureOutcome testOutcome
           = (\<lparr>isValidating = False, status = Error, message = ''Please enter an API key''\<rparr>,
              st, [])
         \<and> saved (fst (snd (handleSave f st configureOutcome testOutcome))) = saved st
         \<and> currentModel (fst (snd (handleSave f st configureOutcome testOutcome)))
             = currentModel st"
  using assms by (simp add: handleSave_def)

theorem handleSave_rejects_empty_key_witness:
  "selectedProvider \<lparr>selectedProvider = ''openai'', selectedModel = ''gpt-4'', apiKey = [],
        endpoint = ''http://localhost:11434''\<rparr> \<noteq> ''ollama''
   \<and> trim (selector.apiKey \<lparr>selectedProvider = ''openai'', selectedModel = ''gpt-4'', apiKey = [],
        endpoint = ''http://localhost:11434''\<rparr>) = []
   \<and> handleSave \<lparr>selectedProvider = ''openai'', selectedModel = ''gpt-4'', apiKey = [],
        endpoint = ''http://localhost:11434''\<rparr>
        \<lparr>currentModel = None, saved = Some ''previous''\<rparr> (Resolved JNull) (Resolved JNull)
       = (\<lparr>isValidating = False, status = Error, message = ''Please enter an API key''\<rparr>,
          \<lparr>currentModel = None, saved = Some ''previous''\<rparr>, [])"
  using handleSave_rejects_empty_key
    [of "\<lparr>selectedProvider = ''openai'', selectedModel = ''gpt-4'', apiKey = [],
        endpoint = ''http://localhost:11434''\<rparr>"
        "\<lparr>currentModel = None, saved = Some ''previous''\<rparr>" "Resolved JNull" "Resolved JNull"]
  by (simp add: trim_def)

end
